theory Spec2Isabelle
  imports Main "HOL-Library.AList"
begin

section \<open>The curl command parser (parse-curl-v2.js)\<close>

text \<open>
  The development embeds \<^verbatim>\<open>packages/bruno-app/src/utils/curl/parse-curl-v2.js\<close>.
  JavaScript strings are modelled as \<^typ>\<open>string\<close>; character classes and case
  conversion are the ASCII ones. The request object that the parser mutates is a record
  that every function takes and returns; a property that may be absent is an
  \<^typ>\<open>'a option\<close>, a flag that is either \<^verbatim>\<open>true\<close> or absent is a \<^typ>\<open>bool\<close>.
  A JavaScript \<^verbatim>\<open>TypeError\<close> is the value \<open>Inl TypeError\<close>.
\<close>

subsection \<open>Values\<close>

text \<open>
  An element of the array returned by shell-quote's \<^verbatim>\<open>parse\<close>: a string, an operator
  object \<^verbatim>\<open>{op: s}\<close>, a glob object \<^verbatim>\<open>{op: 'glob', pattern: p}\<close> or a comment object
  \<^verbatim>\<open>{comment: s}\<close>.
\<close>

datatype token = Str string | Op string | Glob string | Comment string

datatype error = TypeError

type_synonym 'a result = "error + 'a"

text \<open>JavaScript truthiness: the empty string is falsy, every object is truthy.\<close>

fun truthy :: "token \<Rightarrow> bool" where
  "truthy (Str s) = (s \<noteq> [])"
| "truthy _ = True"

text \<open>String coercion, as done by \<^verbatim>\<open>+\<close> with a string operand.\<close>

fun to_str :: "token \<Rightarrow> string" where
  "to_str (Str s) = s"
| "to_str _ = ''[object Object]''"

text \<open>The properties \<^verbatim>\<open>op\<close> and \<^verbatim>\<open>pattern\<close> of a token (\<open>None\<close> is \<^verbatim>\<open>undefined\<close>).\<close>

fun op_of :: "token \<Rightarrow> string option" where
  "op_of (Op s) = Some s"
| "op_of (Glob p) = Some ''glob''"
| "op_of _ = None"

fun pattern_of :: "token \<Rightarrow> string option" where
  "pattern_of (Glob p) = Some p"
| "pattern_of _ = None"

definition is_upper :: "char \<Rightarrow> bool" where
  "is_upper c = (65 \<le> (of_char c :: nat) \<and> (of_char c :: nat) \<le> 90)"

definition is_lower :: "char \<Rightarrow> bool" where
  "is_lower c = (97 \<le> (of_char c :: nat) \<and> (of_char c :: nat) \<le> 122)"

definition upper_char :: "char \<Rightarrow> char" where
  "upper_char c = (if is_lower c then char_of ((of_char c :: nat) - 32) else c)"

definition lower_char :: "char \<Rightarrow> char" where
  "lower_char c = (if is_upper c then char_of ((of_char c :: nat) + 32) else c)"

definition toUpperCase :: "string \<Rightarrow> string" where
  "toUpperCase s = map upper_char s"

definition toLowerCase :: "string \<Rightarrow> string" where
  "toLowerCase s = map lower_char s"

text \<open>Line terminators (not matched by \<^verbatim>\<open>.\<close>) and white space (\<^verbatim>\<open>\s\<close>).\<close>

definition is_lt :: "char \<Rightarrow> bool" where
  "is_lt c = (c = CHR 0x0A \<or> c = CHR 0x0D)"

definition is_space :: "char \<Rightarrow> bool" where
  "is_space c = (c = CHR '' '' \<or> c = CHR 0x09 \<or> c = CHR 0x0A \<or> c = CHR 0x0B
                 \<or> c = CHR 0x0C \<or> c = CHR 0x0D)"

subsection \<open>The request object\<close>

datatype field_type = FileField | TextField

record upload =
  name :: string
  val :: string
  type :: field_type
  enabled :: bool

record basic_auth =
  username :: string
  password :: string

record auth_descriptor =
  mode :: string
  basic :: basic_auth

text \<open>
  A value of the object returned by query-string's \<^verbatim>\<open>parse\<close>: \<^verbatim>\<open>null\<close>, a string, or an
  array of strings and \<^verbatim>\<open>null\<close>s.
\<close>

datatype qsval = QNull | QStr string | QArr "string option list"

text \<open>
  A plain object used as a mapping is an association list in insertion order. A header
  value is a token (a string or, after \<^verbatim>\<open>-A\<close>, possibly an object) or \<^verbatim>\<open>undefined\<close>.
\<close>

type_synonym header_map = "(string \<times> token option) list"

record request =
  headers :: "header_map option"
  "method" :: "string option"
  url :: "string option"
  urlWithoutQuery :: "string option"
  data :: "token option"
  auth :: "auth_descriptor option"
  multipartUploads :: "upload list option"
  cookies :: "(string \<times> string) list option"
  cookieString :: "string option"
  query :: "(string \<times> qsval) list option"
  isDataRaw :: bool
  isDataBinary :: bool
  insecure :: bool
  isQuery :: bool

text \<open>
  Assignment \<^verbatim>\<open>obj[k] = v\<close> on a plain object: an existing key keeps its place, a new key
  is added at the end. Assigning a string or \<^verbatim>\<open>undefined\<close> to \<^verbatim>\<open>__proto__\<close> creates no
  property.
\<close>

definition assign :: "string \<Rightarrow> 'v \<Rightarrow> (string \<times> 'v) list \<Rightarrow> (string \<times> 'v) list" where
  "assign k v obj = (if k = ''__proto__'' then obj else AList.update k v obj)"

text \<open>\<^verbatim>\<open>request.headers[k] = v\<close>; a \<^verbatim>\<open>TypeError\<close> when \<^verbatim>\<open>request.headers\<close> is undefined.\<close>

definition headers_put :: "request \<Rightarrow> string \<Rightarrow> token option \<Rightarrow> request result" where
  "headers_put r k v =
     (case headers r of
        None \<Rightarrow> Inl TypeError
      | Some h \<Rightarrow> Inr (r\<lparr>headers := Some (assign k v h)\<rparr>))"

subsection \<open>The libraries\<close>

text \<open>
  The third-party functions the parser calls are parameters of the model:
  shell-quote's \<^verbatim>\<open>parse\<close>, \<^verbatim>\<open>URL.parse\<close> with the two properties \<^verbatim>\<open>host\<close> and \<^verbatim>\<open>query\<close>
  that are read from its result, \<^verbatim>\<open>URL.format\<close>, \<^verbatim>\<open>cookie.parse\<close> and query-string's
  \<^verbatim>\<open>parse\<close>. The type \<open>'u\<close> is the library's Url object. All of them are taken to
  return normally.
\<close>

record 'u env =
  shell_parse :: "string \<Rightarrow> token list"
  url_parse :: "string \<Rightarrow> 'u"
  url_host :: "'u \<Rightarrow> string option"
  url_query :: "'u \<Rightarrow> string option"
  url_format :: "'u \<Rightarrow> string"
  cookie_parse :: "string \<Rightarrow> (string \<times> string) list"
  qs_parse :: "string option \<Rightarrow> (string \<times> qsval) list"

subsection \<open>Flags\<close>

datatype category =
    UserAgent | Header | Data | Json | User | Method | Cookie | Form
  | DataRaw | DataBinary
  | Head | Compressed | Insecure
  | Query

definition FLAG_CATEGORIES :: "(category \<times> string list) list" where
  "FLAG_CATEGORIES =
    [(UserAgent, [''-A'', ''--user-agent'']),
     (Header, [''-H'', ''--header'']),
     (Data, [''-d'', ''--data'', ''--data-ascii'', ''--data-urlencode'']),
     (Json, [''--json'']),
     (User, [''-u'', ''--user'']),
     (Method, [''-X'', ''--request'']),
     (Cookie, [''-b'', ''--cookie'']),
     (Form, [''-F'', ''--form'']),
     (DataRaw, [''--data-raw'']),
     (DataBinary, [''--data-binary'']),
     (Head, [''-I'', ''--head'']),
     (Compressed, [''--compressed'']),
     (Insecure, [''-k'', ''--insecure'']),
     (Query, [''-G'', ''--get''])]"

text \<open>\<^verbatim>\<open>v || d\<close> for a header value \<open>v\<close> read back from the mapping.\<close>

fun or_default :: "token option option \<Rightarrow> token \<Rightarrow> token" where
  "or_default (Some (Some t)) d = (if truthy t then t else d)"
| "or_default _ d = d"

fun handleFlagCategory :: "category \<Rightarrow> request \<Rightarrow> (category option \<times> request) result" where
  "handleFlagCategory UserAgent request = Inr (Some UserAgent, request)"
| "handleFlagCategory Header request = Inr (Some Header, request)"
| "handleFlagCategory Data request = Inr (Some Data, request)"
| "handleFlagCategory Json request = Inr (Some Json, request)"
| "handleFlagCategory User request = Inr (Some User, request)"
| "handleFlagCategory Method request = Inr (Some Method, request)"
| "handleFlagCategory Cookie request = Inr (Some Cookie, request)"
| "handleFlagCategory Form request = Inr (Some Form, request)"
| "handleFlagCategory DataRaw request = Inr (Some Data, request\<lparr>isDataRaw := True\<rparr>)"
| "handleFlagCategory DataBinary request = Inr (Some Data, request\<lparr>isDataBinary := True\<rparr>)"
| "handleFlagCategory Head request = Inr (None, request\<lparr>method := Some ''HEAD''\<rparr>)"
| "handleFlagCategory Compressed request =
     (case headers request of
        None \<Rightarrow> Inl TypeError
      | Some h \<Rightarrow>
          (case headers_put request ''Accept-Encoding''
                  (Some (or_default (map_of h ''Accept-Encoding'') (Str ''deflate, gzip''))) of
             Inl e \<Rightarrow> Inl e
           | Inr r \<Rightarrow> Inr (None, r)))"
| "handleFlagCategory Insecure request = Inr (None, request\<lparr>insecure := True\<rparr>)"
| "handleFlagCategory Query request = Inr (None, request\<lparr>isQuery := True\<rparr>)"

text \<open>The first category, in the order of the table, whose flag list includes the argument.\<close>

fun find_category :: "(category \<times> string list) list \<Rightarrow> string \<Rightarrow> category option" where
  "find_category [] a = None"
| "find_category ((c, flags) # rest) a =
     (if a \<in> set flags then Some c else find_category rest a)"

fun handleFlag :: "token \<Rightarrow> request \<Rightarrow> (category option \<times> request) result" where
  "handleFlag (Str a) request =
     (case find_category FLAG_CATEGORIES a of
        Some c \<Rightarrow> handleFlagCategory c request
      | None \<Rightarrow> Inr (None, request))"
| "handleFlag _ request = Inr (None, request)"

subsection \<open>Value handlers\<close>

text \<open>
  \<^verbatim>\<open>value.split(/: (.+)/)\<close>, first two elements: the text before the first \<^verbatim>\<open>": "\<close> that
  is followed by a character other than a line terminator, and the captured run of such
  characters; the whole string and \<^verbatim>\<open>undefined\<close> when there is no match.
\<close>

fun split_header :: "string \<Rightarrow> string \<times> string option" where
  "split_header [] = ([], None)"
| "split_header (c # cs) =
     (if c = CHR '':'' \<and> (case cs of sp # x # _ \<Rightarrow> sp = CHR '' '' \<and> \<not> is_lt x | _ \<Rightarrow> False)
      then ([], Some (takeWhile (\<lambda>x. \<not> is_lt x) (tl cs)))
      else (case split_header cs of (n, v) \<Rightarrow> (c # n, v)))"

fun setHeader :: "request \<Rightarrow> token \<Rightarrow> request result" where
  "setHeader request (Str v) =
     (case split_header v of
        (headerName, headerValue) \<Rightarrow> headers_put request headerName (map_option Str headerValue))"
| "setHeader request _ = Inl TypeError"

definition setUserAgent :: "request \<Rightarrow> token \<Rightarrow> request result" where
  "setUserAgent request v = headers_put request ''User-Agent'' (Some v)"

text \<open>\<^verbatim>\<open>request.data\<close> is truthy.\<close>

fun truthy_opt :: "token option \<Rightarrow> bool" where
  "truthy_opt (Some t) = truthy t"
| "truthy_opt None = False"

definition setData :: "request \<Rightarrow> token \<Rightarrow> request" where
  "setData request v =
     request\<lparr>data :=
       (case data request of
          Some d \<Rightarrow> if truthy d then Some (Str (to_str d @ ''&'' @ to_str v)) else Some v
        | None \<Rightarrow> Some v)\<rparr>"

definition setJsonData :: "request \<Rightarrow> token \<Rightarrow> request result" where
  "setJsonData request v =
     (let r1 = (if method request = Some ''GET'' \<or> method request = Some ''HEAD''
                then request\<lparr>method := Some ''POST''\<rparr> else request)
      in case headers_put r1 ''Content-Type'' (Some (Str ''application/json'')) of
           Inl e \<Rightarrow> Inl e
         | Inr r2 \<Rightarrow> Inr (r2\<lparr>data := Some v\<rparr>))"

text \<open>
  The part of a form field after \<^verbatim>\<open>name=\<close>, matched against
  \<^verbatim>\<open>(?:@?"([^"]*)"|@([^@]*)|([^@]*))?$\<close>: the group of the first alternative that matches.
\<close>

definition quoted :: "string \<Rightarrow> bool" where
  "quoted q = (2 \<le> length q \<and> hd q = CHR 0x22 \<and> last q = CHR 0x22
               \<and> CHR 0x22 \<notin> set (butlast (tl q)))"

definition form_value :: "string \<Rightarrow> string option" where
  "form_value rest =
     (let q = (case rest of c # cs \<Rightarrow> if c = CHR ''@'' then cs else rest | [] \<Rightarrow> rest)
      in if quoted q then Some (butlast (tl q))
         else if (case rest of c # cs \<Rightarrow> c = CHR ''@'' \<and> CHR ''@'' \<notin> set cs | [] \<Rightarrow> False)
              then Some (tl rest)
         else if CHR ''@'' \<notin> set rest then Some rest
         else None)"

definition parseFormField :: "string \<Rightarrow> upload option" where
  "parseFormField field =
     (let fieldName = takeWhile (\<lambda>c. c \<noteq> CHR ''='') field;
          rest = dropWhile (\<lambda>c. c \<noteq> CHR ''='') field
      in if fieldName = [] \<or> rest = [] then None
         else (case form_value (tl rest) of
                 None \<Rightarrow> None
               | Some fieldValue \<Rightarrow>
                   Some \<lparr>name = fieldName, val = fieldValue,
                         type = (if CHR ''@'' \<in> set field then FileField else TextField),
                         enabled = True\<rparr>))"

fun setFormData :: "request \<Rightarrow> token \<Rightarrow> request result" where
  "setFormData request (Str field) =
     (let uploads = (case parseFormField field of Some u \<Rightarrow> [u] | None \<Rightarrow> [])
      in Inr (request\<lparr>multipartUploads :=
                         Some ((case multipartUploads request of Some us \<Rightarrow> us | None \<Rightarrow> []) @ uploads),
                      method := Some ''POST''\<rparr>))"
| "setFormData request _ = Inl TypeError"

text \<open>\<^verbatim>\<open>value.split(':')\<close>: the segments between colons.\<close>

fun split_colon :: "string \<Rightarrow> string list" where
  "split_colon [] = [[]]"
| "split_colon (c # cs) =
     (if c = CHR '':'' then [] # split_colon cs
      else (case split_colon cs of seg # segs \<Rightarrow> (c # seg) # segs | [] \<Rightarrow> [[c]]))"

fun setAuth :: "request \<Rightarrow> token \<Rightarrow> request" where
  "setAuth request (Str v) =
     (let parts = split_colon v
      in request\<lparr>auth := Some \<lparr>mode = ''basic'',
                 basic = \<lparr>username = (case parts of u # _ \<Rightarrow> u | [] \<Rightarrow> []),
                           password = (case parts of _ # p # _ \<Rightarrow> p | _ \<Rightarrow> [])\<rparr>\<rparr>\<rparr>)"
| "setAuth request _ = request"

fun setMethod :: "request \<Rightarrow> token \<Rightarrow> request result" where
  "setMethod request (Str v) = Inr (request\<lparr>method := Some (toUpperCase v)\<rparr>)"
| "setMethod request _ = Inl TypeError"

fun setCookie :: "'u env \<Rightarrow> request \<Rightarrow> token \<Rightarrow> request result" where
  "setCookie E request (Str v) =
     headers_put (request\<lparr>cookies := Some (cookie_parse E v), cookieString := Some v\<rparr>)
       ''Cookie'' (Some (Str v))"
| "setCookie E request _ = Inr request"

text \<open>
  The handler of a state is applied to the value; a state without a handler leaves the
  request unchanged.
\<close>

fun handleValue :: "'u env \<Rightarrow> token \<Rightarrow> category \<Rightarrow> request \<Rightarrow> request result" where
  "handleValue E v Header request = setHeader request v"
| "handleValue E v UserAgent request = setUserAgent request v"
| "handleValue E v Data request = Inr (setData request v)"
| "handleValue E v Json request = setJsonData request v"
| "handleValue E v Form request = setFormData request v"
| "handleValue E v User request = Inr (setAuth request v)"
| "handleValue E v Method request = setMethod request v"
| "handleValue E v Cookie request = setCookie E request v"
| "handleValue E v _ request = Inr request"

subsection \<open>URL detection\<close>

text \<open>\<^verbatim>\<open>!!URL.parse(s).host\<close>\<close>

definition has_host :: "'u env \<Rightarrow> string \<Rightarrow> bool" where
  "has_host E s = (case url_host E (url_parse E s) of Some h \<Rightarrow> h \<noteq> [] | None \<Rightarrow> False)"

fun isURL :: "'u env \<Rightarrow> token \<Rightarrow> bool" where
  "isURL E (Str s) = has_host E s"
| "isURL E _ = False"

text \<open>\<^verbatim>\<open>/^[^=]+=[^&]*$/.test(s)\<close>\<close>

definition query_fragment :: "string \<Rightarrow> bool" where
  "query_fragment s =
     (takeWhile (\<lambda>c. c \<noteq> CHR ''='') s \<noteq> []
      \<and> dropWhile (\<lambda>c. c \<noteq> CHR ''='') s \<noteq> []
      \<and> CHR ''&'' \<notin> set (tl (dropWhile (\<lambda>c. c \<noteq> CHR ''='') s)))"

fun isURLFragment :: "'u env \<Rightarrow> token \<Rightarrow> bool" where
  "isURLFragment E (Str s) = query_fragment s"
| "isURLFragment E arg =
     (if op_of arg = Some ''glob''
      then has_host E (case pattern_of arg of Some p \<Rightarrow> p | None \<Rightarrow> [])
      else op_of arg = Some ''&'')"

definition isURLOrFragment :: "'u env \<Rightarrow> token \<Rightarrow> bool" where
  "isURLOrFragment E arg = (isURL E arg \<or> isURLFragment E arg)"

fun getUrlString :: "token \<Rightarrow> string option" where
  "getUrlString (Str s) = Some s"
| "getUrlString u =
     (if op_of u = Some ''glob'' then pattern_of u
      else if op_of u = Some ''&'' then Some ''&''
      else None)"

definition updateUrlWithoutQuery :: "request \<Rightarrow> request" where
  "updateUrlWithoutQuery request =
     (case url request of
        None \<Rightarrow> request
      | Some u \<Rightarrow> if u = [] then request
                  else request\<lparr>urlWithoutQuery := Some (takeWhile (\<lambda>c. c \<noteq> CHR ''?'') u)\<rparr>)"

definition setURL :: "request \<Rightarrow> token \<Rightarrow> request" where
  "setURL request u =
     (case getUrlString u of
        None \<Rightarrow> request
      | Some urlString \<Rightarrow>
          if urlString = [] then request
          else updateUrlWithoutQuery
                 (request\<lparr>url := (case url request of
                                    Some old \<Rightarrow> if old = [] then Some urlString
                                                else Some (old @ urlString)
                                  | None \<Rightarrow> Some urlString)\<rparr>))"

subsection \<open>The state machine\<close>

definition processArgument ::
  "'u env \<Rightarrow> token \<Rightarrow> category option \<Rightarrow> request \<Rightarrow> (category option \<times> request) result" where
  "processArgument E arg currentState request =
     (case handleFlag arg request of
        Inl e \<Rightarrow> Inl e
      | Inr (flagState, r1) \<Rightarrow>
          (case flagState of
             Some st \<Rightarrow> Inr (Some st, r1)
           | None \<Rightarrow>
               (case currentState of
                  Some cur \<Rightarrow>
                    if truthy arg
                    then (case handleValue E arg cur r1 of
                            Inl e \<Rightarrow> Inl e
                          | Inr r2 \<Rightarrow> Inr (None, r2))
                    else Inr (None, r1)
                | None \<Rightarrow>
                    if isURLOrFragment E arg then Inr (None, setURL r1 arg)
                    else Inr (None, r1))))"

text \<open>The update of \<^verbatim>\<open>currentState\<close> at the end of one iteration of the loop.\<close>

definition next_state :: "category option \<Rightarrow> category option \<Rightarrow> category option" where
  "next_state currentState newState =
     (if currentState \<noteq> None \<and> newState = None then None
      else if newState \<noteq> None then newState
      else currentState)"

text \<open>The \<^verbatim>\<open>for ... of\<close> loop of \<^verbatim>\<open>buildRequest\<close>, from a given state and request.\<close>

fun build_loop ::
  "'u env \<Rightarrow> token list \<Rightarrow> category option \<Rightarrow> request \<Rightarrow> (category option \<times> request) result" where
  "build_loop E [] currentState request = Inr (currentState, request)"
| "build_loop E (arg # args) currentState request =
     (case processArgument E arg currentState request of
        Inl e \<Rightarrow> Inl e
      | Inr (newState, r) \<Rightarrow> build_loop E args (next_state currentState newState) r)"

definition new_request :: request where
  "new_request =
     \<lparr>headers = Some [], method = None, url = None, urlWithoutQuery = None, data = None,
      auth = None, multipartUploads = None, cookies = None, cookieString = None,
      query = None, isDataRaw = False, isDataBinary = False, insecure = False,
      isQuery = False\<rparr>"

definition buildRequest :: "'u env \<Rightarrow> token list \<Rightarrow> request result" where
  "buildRequest E parsedArgs =
     (case build_loop E parsedArgs None new_request of
        Inl e \<Rightarrow> Inl e
      | Inr (st, r) \<Rightarrow> Inr r)"

subsection \<open>Cleaning the command\<close>

text \<open>
  \<^verbatim>\<open>replace(/\$('.*')/g, group)\<close>: a dollar sign before a single quote is dropped when a
  later single quote follows on the same line; the match runs to the last such quote.
\<close>

definition upto_last_quote :: "string \<Rightarrow> string" where
  "upto_last_quote line = rev (dropWhile (\<lambda>c. c \<noteq> CHR 0x27) (rev line))"

function strip_dollar :: "string \<Rightarrow> string" where
  "strip_dollar [] = []"
| "strip_dollar [a] = [a]"
| "strip_dollar (a # b # cs) =
     (if a = CHR ''$'' \<and> b = CHR 0x27
         \<and> upto_last_quote (takeWhile (\<lambda>c. \<not> is_lt c) cs) \<noteq> []
      then b # upto_last_quote (takeWhile (\<lambda>c. \<not> is_lt c) cs)
             @ strip_dollar (drop (length (upto_last_quote (takeWhile (\<lambda>c. \<not> is_lt c) cs))) cs)
      else a # strip_dollar (b # cs))"
  by pat_completeness auto
termination
  by (relation "measure length") auto

text \<open>\<^verbatim>\<open>replace(/\\\r|\\\n/g, '')\<close>\<close>

fun strip_continuations :: "string \<Rightarrow> string" where
  "strip_continuations (a # b # cs) =
     (if a = CHR 0x5C \<and> (b = CHR 0x0D \<or> b = CHR 0x0A) then strip_continuations cs
      else a # strip_continuations (b # cs))"
| "strip_continuations cs = cs"

text \<open>\<^verbatim>\<open>replace(/\s+/g, ' ')\<close>\<close>

function squeeze_spaces :: "string \<Rightarrow> string" where
  "squeeze_spaces [] = []"
| "squeeze_spaces (c # cs) =
     (if is_space c then CHR '' '' # squeeze_spaces (dropWhile is_space cs)
      else c # squeeze_spaces cs)"
  by pat_completeness auto
termination
  by (relation "measure length") (auto simp: less_Suc_eq_le length_dropWhile_le)

text \<open>\<^verbatim>\<open>replace(/\\'(?!')/g, "'\\''")\<close>\<close>

fun escape_quotes :: "string \<Rightarrow> string" where
  "escape_quotes (a # b # cs) =
     (if a = CHR 0x5C \<and> b = CHR 0x27 \<and> (case cs of c # _ \<Rightarrow> c \<noteq> CHR 0x27 | [] \<Rightarrow> True)
      then [CHR 0x27, CHR 0x5C, CHR 0x27, CHR 0x27] @ escape_quotes cs
      else a # escape_quotes (b # cs))"
| "escape_quotes cs = cs"

text \<open>\<^verbatim>\<open>command.replace(from, to)\<close> for a pattern that is a plain string: the first occurrence.\<close>

fun replace_first :: "string \<Rightarrow> string \<Rightarrow> string \<Rightarrow> string" where
  "replace_first from to [] = (if from = [] then to else [])"
| "replace_first from to (c # cs) =
     (if take (length from) (c # cs) = from then to @ drop (length from) (c # cs)
      else c # replace_first from to cs)"

definition methodFixes :: "(string \<times> string) list" where
  "methodFixes =
    [('' -XPOST'', '' -X POST''),
     ('' -XGET'', '' -X GET''),
     ('' -XPUT'', '' -X PUT''),
     ('' -XPATCH'', '' -X PATCH''),
     ('' -XDELETE'', '' -X DELETE''),
     ('' -XOPTIONS'', '' -X OPTIONS''),
     ('' -XHEAD'', '' -X HEAD''),
     ('' -Xnull'', '' '')]"

definition fixConcatenatedMethods :: "string \<Rightarrow> string" where
  "fixConcatenatedMethods command =
     foldl (\<lambda>cmd (from, to). replace_first from to cmd) command methodFixes"

definition trim :: "string \<Rightarrow> string" where
  "trim s = rev (dropWhile is_space (rev (dropWhile is_space s)))"

definition cleanCurlCommand :: "string \<Rightarrow> string" where
  "cleanCurlCommand curlCommand =
     trim (fixConcatenatedMethods (escape_quotes (squeeze_spaces
       (strip_continuations (strip_dollar curlCommand)))))"

subsection \<open>Post-processing\<close>

text \<open>\<^verbatim>\<open>!request.method\<close>\<close>

fun no_method :: "string option \<Rightarrow> bool" where
  "no_method None = True"
| "no_method (Some m) = (m = [])"

definition null_to_empty :: "qsval \<Rightarrow> qsval" where
  "null_to_empty v = (case v of QNull \<Rightarrow> QStr [] | _ \<Rightarrow> v)"

definition convertDataToQueryString :: "'u env \<Rightarrow> request \<Rightarrow> request result" where
  "convertDataToQueryString E request =
     (case url request of
        None \<Rightarrow> Inl TypeError
      | Some u0 \<Rightarrow>
          (let u1 = (if CHR ''?'' \<notin> set u0 then u0 @ ''?''
                     else if \<not> (u0 \<noteq> [] \<and> last u0 = CHR ''&'') then u0 @ ''&''
                     else u0);
               u2 = u1 @ (case data request of Some d \<Rightarrow> to_str d | None \<Rightarrow> ''undefined'');
               parsedUrl = url_parse E u2;
               q = map (\<lambda>(k, v). (k, null_to_empty v)) (qs_parse E (url_query E parsedUrl))
           in Inr (request\<lparr>url := Some (url_format E parsedUrl), query := Some q\<rparr>)))"

definition postBuildProcessRequest :: "'u env \<Rightarrow> request \<Rightarrow> request result" where
  "postBuildProcessRequest E request =
     (case (if isQuery request \<and> truthy_opt (data request)
            then (case convertDataToQueryString E request of
                    Inl e \<Rightarrow> Inl e
                  | Inr r \<Rightarrow> Inr (r\<lparr>data := None, isQuery := False\<rparr>))
            else if truthy_opt (data request)
            then (if no_method (method request) \<or> method request = Some ''HEAD''
                  then Inr (request\<lparr>method := Some ''POST''\<rparr>)
                  else Inr request)
            else Inr request) of
        Inl e \<Rightarrow> Inl e
      | Inr r \<Rightarrow>
          if no_method (method r) then Inr (r\<lparr>method := Some ''GET''\<rparr>) else Inr r)"

text \<open>
  \<^verbatim>\<open>request.method.toLowerCase()\<close> is a \<^verbatim>\<open>TypeError\<close> on an absent method;
  \<^verbatim>\<open>isEmpty\<close> holds of an absent mapping and of one without keys.
\<close>

definition normalizeRequest :: "request \<Rightarrow> request result" where
  "normalizeRequest request =
     (case method request of
        None \<Rightarrow> Inl TypeError
      | Some m \<Rightarrow>
          (let r = request\<lparr>method := Some (toLowerCase m)\<rparr>
           in if headers r = None \<or> headers r = Some [] then Inr (r\<lparr>headers := None\<rparr>)
              else Inr r))"

definition parseCurlCommand :: "'u env \<Rightarrow> string \<Rightarrow> request result" where
  "parseCurlCommand E curl =
     (let cleanedCommand = cleanCurlCommand curl;
          parsedArgs = shell_parse E cleanedCommand
      in case buildRequest E parsedArgs of
           Inl e \<Rightarrow> Inl e
         | Inr request \<Rightarrow>
             (case postBuildProcessRequest E request of
                Inl e \<Rightarrow> Inl e
              | Inr r \<Rightarrow> normalizeRequest r))"

subsection \<open>A concrete environment\<close>

text \<open>
  An instance of the library functions for evaluating the parser on examples. It agrees
  with the libraries on the commands used below: words separated by blanks, without
  quotes, backslashes or shell metacharacters, \<^verbatim>\<open>http\<close> URLs with a path, and query
  strings of plain \<^verbatim>\<open>key=value\<close> pairs or bare keys. The Url object is represented by
  the URL string. As in query-string, a key without \<^verbatim>\<open>=\<close> has the value \<^verbatim>\<open>null\<close> and the
  values of a repeated key are collected in an array.
\<close>

fun split_on :: "char \<Rightarrow> string \<Rightarrow> string list" where
  "split_on sep [] = [[]]"
| "split_on sep (c # cs) =
     (if c = sep then [] # split_on sep cs
      else (case split_on sep cs of seg # segs \<Rightarrow> (c # seg) # segs | [] \<Rightarrow> [[c]]))"

definition key_value :: "string \<Rightarrow> string \<times> string" where
  "key_value s = (takeWhile (\<lambda>c. c \<noteq> CHR ''='') s, drop 1 (dropWhile (\<lambda>c. c \<noteq> CHR ''='') s))"

fun qs_elems :: "qsval \<Rightarrow> string option list" where
  "qs_elems QNull = [None]"
| "qs_elems (QStr v) = [Some v]"
| "qs_elems (QArr vs) = vs"

fun qs_add :: "string \<Rightarrow> string option \<Rightarrow> (string \<times> qsval) list \<Rightarrow> (string \<times> qsval) list" where
  "qs_add k v [] = [(k, case v of None \<Rightarrow> QNull | Some x \<Rightarrow> QStr x)]"
| "qs_add k v ((k', x) # rest) =
     (if k = k' then (k', QArr (qs_elems x @ [v])) # rest else (k', x) # qs_add k v rest)"

definition sample_env :: "string env" where
  "sample_env =
     \<lparr>shell_parse = (\<lambda>s. map Str (filter (\<lambda>w. w \<noteq> []) (split_on CHR '' '' s))),
      url_parse = (\<lambda>s. s),
      url_host = (\<lambda>s. if take 7 s = ''http://''
                       then Some (takeWhile (\<lambda>c. c \<noteq> CHR ''/'' \<and> c \<noteq> CHR ''?'' \<and> c \<noteq> CHR ''#'')
                                    (drop 7 s))
                       else None),
      url_query = (\<lambda>s. if CHR ''?'' \<in> set s
                        then Some (takeWhile (\<lambda>c. c \<noteq> CHR ''#'')
                                     (drop 1 (dropWhile (\<lambda>c. c \<noteq> CHR ''?'') s)))
                        else None),
      url_format = (\<lambda>s. s),
      cookie_parse = (\<lambda>s. map key_value (filter (\<lambda>w. CHR ''='' \<in> set w) (split_on CHR '';'' s))),
      qs_parse = (\<lambda>q. case q of
                         None \<Rightarrow> []
                       | Some s \<Rightarrow>
                           foldl (\<lambda>acc w. if CHR ''='' \<in> set w
                                          then qs_add (fst (key_value w)) (Some (snd (key_value w))) acc
                                          else qs_add w None acc)
                             [] (filter (\<lambda>w. w \<noteq> []) (split_on CHR ''&'' s)))\<rparr>"

subsection \<open>Notions used in the statements\<close>

text \<open>
  The state that \<^const>\<open>handleFlagCategory\<close> returns for a category, and the state that
  \<^const>\<open>handleFlag\<close> returns for a token: \<open>Some\<close> for a flag that expects a value, \<open>None\<close>
  for an immediate flag and for a token that is not a flag.
\<close>

fun value_state :: "category \<Rightarrow> category option" where
  "value_state DataRaw = Some Data"
| "value_state DataBinary = Some Data"
| "value_state Head = None"
| "value_state Compressed = None"
| "value_state Insecure = None"
| "value_state Query = None"
| "value_state c = Some c"

fun flag_state :: "token \<Rightarrow> category option" where
  "flag_state (Str a) =
     (case find_category FLAG_CATEGORIES a of Some c \<Rightarrow> value_state c | None \<Rightarrow> None)"
| "flag_state _ = None"

text \<open>The six flags whose value is appended to the body data.\<close>

definition data_flags :: "string set" where
  "data_flags = {''-d'', ''--data'', ''--data-ascii'', ''--data-urlencode'', ''--data-raw'',
                 ''--data-binary''}"




text \<open>A token that is one of the flags of the table.\<close>

definition is_flag :: "token \<Rightarrow> bool" where
  "is_flag t = (case t of Str a \<Rightarrow> find_category FLAG_CATEGORIES a \<noteq> None | _ \<Rightarrow> False)"

section \<open>Properties\<close>

subsection \<open>Case conversion\<close>

lemma lower_char_not_upper: "\<not> is_upper (lower_char c)"
  by (cases c) (auto simp: is_upper_def lower_char_def)



lemma toLower_idem: "toLowerCase (toLowerCase s) = toLowerCase s"
  using lower_char_not_upper by (simp add: toLowerCase_def lower_char_def)

lemma toLower_no_upper: "c \<in> set (toLowerCase s) \<Longrightarrow> \<not> is_upper c"
  using lower_char_not_upper by (auto simp: toLowerCase_def)

subsection \<open>The state after a step\<close>

lemma handleFlagCategory_state:
  "handleFlagCategory c r = Inr (st, r') \<Longrightarrow> st = value_state c"
  by (cases c) (auto simp: headers_put_def split: option.splits sum.splits)

lemma handleFlag_state: "handleFlag t r = Inr (st, r') \<Longrightarrow> st = flag_state t"
  by (cases t) (auto split: option.splits dest: handleFlagCategory_state)

lemma step_state:
  "processArgument E t cur r = Inr (ns, r') \<Longrightarrow> next_state cur ns = flag_state t"
  unfolding processArgument_def next_state_def
  by (auto split: sum.splits option.splits if_splits prod.splits dest: handleFlag_state)

lemma build_loop_append:
  "build_loop E (xs @ ys) cur r =
     (case build_loop E xs cur r of Inl e \<Rightarrow> Inl e | Inr (st, r') \<Rightarrow> build_loop E ys st r')"
  by (induction xs arbitrary: cur r) (auto split: sum.splits)

subsection \<open>The headers mapping exists while the request is built\<close>

lemma handleFlagCategory_headers:
  "handleFlagCategory c r = Inr (st, r') \<Longrightarrow> headers r \<noteq> None \<Longrightarrow> headers r' \<noteq> None"
  by (cases c) (auto simp: headers_put_def split: option.splits sum.splits)

lemma handleFlag_headers:
  "handleFlag t r = Inr (st, r') \<Longrightarrow> headers r \<noteq> None \<Longrightarrow> headers r' \<noteq> None"
  by (cases t) (auto split: option.splits dest: handleFlagCategory_headers)

lemma handleValue_headers:
  "handleValue E v c r = Inr r' \<Longrightarrow> headers r \<noteq> None \<Longrightarrow> headers r' \<noteq> None"
  by (cases c; cases v)
     (auto simp: headers_put_def setUserAgent_def setData_def setJsonData_def Let_def
           split: option.splits sum.splits prod.splits if_splits)

lemma setURL_headers: "headers (setURL r u) = headers r"
  by (auto simp: setURL_def updateUrlWithoutQuery_def split: option.splits)

lemma processArgument_headers:
  "processArgument E t cur r = Inr (ns, r') \<Longrightarrow> headers r \<noteq> None \<Longrightarrow> headers r' \<noteq> None"
  unfolding processArgument_def
  by (auto split: sum.splits option.splits if_splits prod.splits
           dest: handleFlag_headers handleValue_headers simp: setURL_headers)

lemma build_loop_headers:
  "build_loop E ts cur r = Inr (st, r') \<Longrightarrow> headers r \<noteq> None \<Longrightarrow> headers r' \<noteq> None"
proof (induction ts arbitrary: cur r)
  case Nil
  then show ?case by simp
next
  case (Cons t ts)
  then show ?case
    by (auto split: sum.splits prod.splits dest: processArgument_headers)
qed

lemma buildRequest_headers: "buildRequest E ts = Inr b \<Longrightarrow> headers b \<noteq> None"
  unfolding buildRequest_def
  by (auto split: sum.splits prod.splits dest: build_loop_headers simp: new_request_def)

subsection \<open>Post-processing and normalisation\<close>

lemma convert_fields:
  assumes "convertDataToQueryString E b = Inr p"
  shows "headers p = headers b \<and> method p = method b \<and> auth p = auth b
         \<and> multipartUploads p = multipartUploads b"
  using assms by (auto simp: convertDataToQueryString_def Let_def split: option.splits)

lemma postBuild_fields:
  assumes "postBuildProcessRequest E b = Inr p"
  shows "headers p = headers b \<and> auth p = auth b \<and> multipartUploads p = multipartUploads b"
  using assms unfolding postBuildProcessRequest_def
  by (auto split: sum.splits if_splits dest: convert_fields)

lemma postBuild_unchanged:
  assumes "postBuildProcessRequest E b = Inr p" and "\<not> (isQuery b \<and> truthy_opt (data b))"
  shows "url p = url b \<and> data p = data b"
  using assms unfolding postBuildProcessRequest_def
  by (auto split: sum.splits if_splits)

lemma postBuild_has_method:
  assumes "postBuildProcessRequest E b = Inr p"
  shows "\<exists>m. method p = Some m \<and> m \<noteq> []"
proof -
  have "\<not> no_method (method p)"
    using assms unfolding postBuildProcessRequest_def
    by (auto split: sum.splits if_splits)
  then show ?thesis by (cases "method p") auto
qed

lemma normalize_method:
  assumes "normalizeRequest p = Inr r"
  shows "\<exists>m. method p = Some m \<and> method r = Some (toLowerCase m)"
  using assms unfolding normalizeRequest_def
  by (auto simp: Let_def split: option.splits if_splits)

lemma normalize_fields:
  assumes "normalizeRequest p = Inr r"
  shows "headers r = (if headers p = Some [] then None else headers p) \<and> auth r = auth p
         \<and> multipartUploads r = multipartUploads p \<and> url r = url p \<and> data r = data p
         \<and> query r = query p \<and> isQuery r = isQuery p"
  using assms unfolding normalizeRequest_def
  by (auto simp: Let_def split: option.splits if_splits)

lemma parse_stages:
  assumes "parseCurlCommand E curl = Inr r"
  shows "\<exists>b p. buildRequest E (shell_parse E (cleanCurlCommand curl)) = Inr b
           \<and> postBuildProcessRequest E b = Inr p \<and> normalizeRequest p = Inr r"
  using assms unfolding parseCurlCommand_def
  by (auto simp: Let_def split: sum.splits)

subsection \<open>What a step does to the fields\<close>

lemma find_category_closed:
  "find_category FLAG_CATEGORIES a =
     (if a \<in> {''-A'', ''--user-agent''} then Some UserAgent
      else if a \<in> {''-H'', ''--header''} then Some Header
      else if a \<in> {''-d'', ''--data'', ''--data-ascii'', ''--data-urlencode''} then Some Data
      else if a \<in> {''--json''} then Some Json
      else if a \<in> {''-u'', ''--user''} then Some User
      else if a \<in> {''-X'', ''--request''} then Some Method
      else if a \<in> {''-b'', ''--cookie''} then Some Cookie
      else if a \<in> {''-F'', ''--form''} then Some Form
      else if a \<in> {''--data-raw''} then Some DataRaw
      else if a \<in> {''--data-binary''} then Some DataBinary
      else if a \<in> {''-I'', ''--head''} then Some Head
      else if a \<in> {''--compressed''} then Some Compressed
      else if a \<in> {''-k'', ''--insecure''} then Some Insecure
      else if a \<in> {''-G'', ''--get''} then Some Query
      else None)"
  unfolding FLAG_CATEGORIES_def find_category.simps set_simps by (rule refl)

lemma flag_state_closed:
  "flag_state (Str a) =
     (if a \<in> {''-A'', ''--user-agent''} then Some UserAgent
      else if a \<in> {''-H'', ''--header''} then Some Header
      else if a \<in> {''-d'', ''--data'', ''--data-ascii'', ''--data-urlencode''} then Some Data
      else if a \<in> {''--json''} then Some Json
      else if a \<in> {''-u'', ''--user''} then Some User
      else if a \<in> {''-X'', ''--request''} then Some Method
      else if a \<in> {''-b'', ''--cookie''} then Some Cookie
      else if a \<in> {''-F'', ''--form''} then Some Form
      else if a \<in> {''--data-raw'', ''--data-binary''} then Some Data
      else None)"
  unfolding flag_state.simps find_category_closed
  by (simp only: if_distrib [of "case_option None value_state"] option.case value_state.simps
        insert_iff empty_iff cong: if_cong) simp


lemma flag_state_Method: "(flag_state t = Some Method) = (t \<in> Str ` {''-X'', ''--request''})"
  by (cases t) (auto simp del: flag_state.simps(1) simp add: flag_state_closed split: if_splits)

lemma flag_state_Form: "(flag_state t = Some Form) = (t \<in> Str ` {''-F'', ''--form''})"
  by (cases t) (auto simp del: flag_state.simps(1) simp add: flag_state_closed split: if_splits)

lemma flag_state_Json: "(flag_state t = Some Json) = (t = Str ''--json'')"
  by (cases t) (auto simp del: flag_state.simps(1) simp add: flag_state_closed split: if_splits)

lemma flag_state_Data: "(flag_state t = Some Data) = (t \<in> Str ` data_flags)"
  by (cases t) (auto simp del: flag_state.simps(1) simp add: flag_state_closed data_flags_def split: if_splits)


lemma find_category_Head: "(find_category FLAG_CATEGORIES a = Some Head) = (a \<in> {''-I'', ''--head''})"
  by (auto simp: find_category_closed split: if_splits)

lemma find_category_Query: "(find_category FLAG_CATEGORIES a = Some Query) = (a \<in> {''-G'', ''--get''})"
  by (auto simp: find_category_closed split: if_splits)

lemma handleFlagCategory_fields:
  assumes "handleFlagCategory c r = Inr (st, r')"
  shows "method r' = (if c = Head then Some ''HEAD'' else method r)"
    and "data r' = data r"
    and "isQuery r' = (isQuery r \<or> c = Query)"
    and "url r' = url r" and "auth r' = auth r"
  using assms
  by (cases c; auto simp: headers_put_def split: option.splits)+

lemma handleFlag_fields:
  assumes "handleFlag t r = Inr (st, r')"
  shows "method r' = (if t \<in> Str ` {''-I'', ''--head''} then Some ''HEAD'' else method r)"
    and "data r' = data r"
    and "isQuery r' = (isQuery r \<or> t \<in> Str ` {''-G'', ''--get''})"
    and "url r' = url r" and "auth r' = auth r"
proof -
  show "method r' = (if t \<in> Str ` {''-I'', ''--head''} then Some ''HEAD'' else method r)"
  proof (cases t)
    case (Str a)
    show ?thesis
    proof (cases "find_category FLAG_CATEGORIES a")
      case None
      then show ?thesis using assms Str find_category_Head [of a] by auto
    next
      case (Some c)
      then show ?thesis
        using assms Str handleFlagCategory_fields(1) [of c r st r'] find_category_Head [of a]
        by auto
    qed
  qed (use assms in auto)
  show "isQuery r' = (isQuery r \<or> t \<in> Str ` {''-G'', ''--get''})"
  proof (cases t)
    case (Str a)
    show ?thesis
    proof (cases "find_category FLAG_CATEGORIES a")
      case None
      then show ?thesis using assms Str find_category_Query [of a] by auto
    next
      case (Some c)
      then show ?thesis
        using assms Str handleFlagCategory_fields(3) [of c r st r'] find_category_Query [of a]
        by auto
    qed
  qed (use assms in auto)
  show "data r' = data r" "url r' = url r" "auth r' = auth r"
    using assms by (cases t; auto split: option.splits dest: handleFlagCategory_fields)+
qed


lemma processArgument_cases:
  assumes "processArgument E t cur r = Inr (ns, r')"
  obtains r1 where "handleFlag t r = Inr (flag_state t, r1)"
    and "flag_state t \<noteq> None \<or> cur = None \<or> \<not> truthy t \<Longrightarrow>
           r' = r1 \<or> (flag_state t = None \<and> cur = None \<and> r' = setURL r1 t)"
    and "\<And>c. flag_state t = None \<Longrightarrow> cur = Some c \<Longrightarrow> truthy t \<Longrightarrow>
           handleValue E t c r1 = Inr r'"
proof -
  from assms obtain fs r1 where hf: "handleFlag t r = Inr (fs, r1)"
    unfolding processArgument_def by (auto split: sum.splits)
  then have fs: "fs = flag_state t" by (rule handleFlag_state)
  show ?thesis
  proof (rule that [of r1])
    show "handleFlag t r = Inr (flag_state t, r1)" using hf fs by simp
    show "r' = r1 \<or> (flag_state t = None \<and> cur = None \<and> r' = setURL r1 t)"
      if "flag_state t \<noteq> None \<or> cur = None \<or> \<not> truthy t"
      using assms hf fs that unfolding processArgument_def
      by (auto split: option.splits if_splits sum.splits)
    show "handleValue E t c r1 = Inr r'"
      if "flag_state t = None" "cur = Some c" "truthy t" for c
      using assms hf fs that unfolding processArgument_def
      by (auto split: option.splits if_splits sum.splits)
  qed
qed

lemma setURL_fields:
  "method (setURL r u) = method r" "data (setURL r u) = data r"
  "isQuery (setURL r u) = isQuery r" "auth (setURL r u) = auth r"
  by (auto simp: setURL_def updateUrlWithoutQuery_def split: option.splits)

lemma handleValue_isQuery: "handleValue E v c r = Inr r' \<Longrightarrow> isQuery r' = isQuery r"
  by (cases c; cases v)
     (auto simp: headers_put_def setUserAgent_def setData_def setJsonData_def Let_def
           split: option.splits sum.splits prod.splits if_splits)

lemma handleValue_method:
  assumes "handleValue E v c r = Inr r'"
  shows "c \<noteq> Method \<Longrightarrow> c \<noteq> Form \<Longrightarrow> c \<noteq> Json \<Longrightarrow> method r' = method r"
    and "c = Json \<Longrightarrow> method r' = (if method r = Some ''GET'' \<or> method r = Some ''HEAD''
                                      then Some ''POST'' else method r)"
    and "c = Form \<Longrightarrow> method r' = Some ''POST''"
    and "c = Method \<Longrightarrow> \<exists>s. v = Str s \<and> method r' = Some (toUpperCase s)"
  using assms
  by (cases c; cases v;
      auto simp: headers_put_def setUserAgent_def setData_def setJsonData_def Let_def
           split: option.splits sum.splits prod.splits if_splits)+

lemma handleValue_data:
  assumes "handleValue E v c r = Inr r'"
  shows "c \<noteq> Data \<Longrightarrow> c \<noteq> Json \<Longrightarrow> data r' = data r"
    and "c = Json \<Longrightarrow> data r' = Some v"
    and "c = Data \<Longrightarrow> data r' = data (setData r v)"
  using assms
  by (cases c; cases v;
      auto simp: headers_put_def setUserAgent_def setData_def setJsonData_def Let_def
           split: option.splits sum.splits prod.splits if_splits)+

lemma build_loop_invariant:
  assumes "build_loop E ts cur r = Inr (st, r')"
    and "\<And>t c x ns y. t \<in> set ts \<Longrightarrow> Q c \<Longrightarrow> P x
            \<Longrightarrow> processArgument E t c x = Inr (ns, y) \<Longrightarrow> P y"
    and "\<And>t. t \<in> set ts \<Longrightarrow> Q (flag_state t)"
    and "Q cur" and "P r"
  shows "P r'"
  using assms
proof (induction ts arbitrary: cur r)
  case Nil
  then show ?case by simp
next
  case (Cons t ts)
  from Cons.prems(1) obtain ns y where
    step: "processArgument E t cur r = Inr (ns, y)" and
    rest: "build_loop E ts (next_state cur ns) y = Inr (st, r')"
    by (auto split: sum.splits)
  have Py: "P y" using Cons.prems(2) [of t cur r ns y] Cons.prems(4,5) step by simp
  have Qn: "Q (next_state cur ns)" using step_state [OF step] Cons.prems(3) [of t] by simp
  show ?case
  proof (rule Cons.IH [OF rest _ _ Qn Py])
    show "P y'" if "u \<in> set ts" "Q c" "P x" "processArgument E u c x = Inr (ms, y')"
      for u c x ms y'
      using Cons.prems(2) [of u c x ms y'] that by simp
    show "Q (flag_state u)" if "u \<in> set ts" for u
      using Cons.prems(3) [of u] that by simp
  qed
qed

subsection \<open>Moving the data into the URL\<close>

lemma step_isQuery:
  assumes "processArgument E t c x = Inr (ns, y)"
  shows "isQuery y = (isQuery x \<or> t \<in> Str ` {''-G'', ''--get''})"
proof -
  from assms obtain r1 where
    hf: "handleFlag t x = Inr (flag_state t, r1)" and
    a: "flag_state t \<noteq> None \<or> c = None \<or> \<not> truthy t \<Longrightarrow>
          y = r1 \<or> (flag_state t = None \<and> c = None \<and> y = setURL r1 t)" and
    b: "\<And>k. flag_state t = None \<Longrightarrow> c = Some k \<Longrightarrow> truthy t \<Longrightarrow> handleValue E t k r1 = Inr y"
    by (rule processArgument_cases) blast
  have "isQuery y = isQuery r1"
  proof (cases "flag_state t \<noteq> None \<or> c = None \<or> \<not> truthy t")
    case True
    from a [OF True] show ?thesis by (auto simp: setURL_fields)
  next
    case False
    then obtain k where "c = Some k" "flag_state t = None" "truthy t" by auto
    from b [OF this(2,1,3)] show ?thesis by (rule handleValue_isQuery)
  qed
  then show ?thesis using handleFlag_fields(3) [OF hf] by simp
qed

lemma build_loop_isQuery:
  "build_loop E ts cur r = Inr (st, r') \<Longrightarrow>
     isQuery r' = (isQuery r \<or> Str ''-G'' \<in> set ts \<or> Str ''--get'' \<in> set ts)"
proof (induction ts arbitrary: cur r)
  case Nil
  then show ?case by simp
next
  case (Cons t ts)
  from Cons.prems obtain ns y where
    step: "processArgument E t cur r = Inr (ns, y)" and
    rest: "build_loop E ts (next_state cur ns) y = Inr (st, r')"
    by (auto split: sum.splits)
  show ?case using Cons.IH [OF rest] step_isQuery [OF step] by auto
qed

lemma buildRequest_isQuery:
  "buildRequest E ts = Inr b \<Longrightarrow> isQuery b = (Str ''-G'' \<in> set ts \<or> Str ''--get'' \<in> set ts)"
  unfolding buildRequest_def
  by (auto split: sum.splits prod.splits dest!: build_loop_isQuery simp: new_request_def)



subsection \<open>The method through the build pass and the post-processing\<close>

lemma step_method:
  assumes "processArgument E t c x = Inr (ns, y)"
    and "t \<notin> Str ` {''-I'', ''--head''}"
    and "c \<noteq> Some Method" and "c \<noteq> Some Form"
    and "c = Some Json \<Longrightarrow> method x \<noteq> Some ''GET'' \<and> method x \<noteq> Some ''HEAD''"
  shows "method y = method x"
proof -
  from assms(1) obtain r1 where
    hf: "handleFlag t x = Inr (flag_state t, r1)" and
    a: "flag_state t \<noteq> None \<or> c = None \<or> \<not> truthy t \<Longrightarrow>
          y = r1 \<or> (flag_state t = None \<and> c = None \<and> y = setURL r1 t)" and
    b: "\<And>k. flag_state t = None \<Longrightarrow> c = Some k \<Longrightarrow> truthy t \<Longrightarrow> handleValue E t k r1 = Inr y"
    by (rule processArgument_cases) blast
  have r1: "method r1 = method x" using handleFlag_fields(1) [OF hf] assms(2) by simp
  have "method y = method r1"
  proof (cases "flag_state t \<noteq> None \<or> c = None \<or> \<not> truthy t")
    case True
    from a [OF True] show ?thesis by (auto simp: setURL_fields)
  next
    case False
    then obtain k where k: "c = Some k" "flag_state t = None" "truthy t" by auto
    note hv = b [OF k(2,1,3)]
    show ?thesis
    proof (cases "k = Json")
      case True
      then show ?thesis using handleValue_method(2) [OF hv] assms(5) k(1) r1 by simp
    next
      case False
      then show ?thesis using handleValue_method(1) [OF hv] assms(3,4) k(1) by simp
    qed
  qed
  then show ?thesis using r1 by simp
qed

lemma step_data:
  assumes "processArgument E t c x = Inr (ns, y)"
    and "c \<noteq> Some Data" and "c \<noteq> Some Json"
  shows "data y = data x"
proof -
  from assms(1) obtain r1 where
    hf: "handleFlag t x = Inr (flag_state t, r1)" and
    a: "flag_state t \<noteq> None \<or> c = None \<or> \<not> truthy t \<Longrightarrow>
          y = r1 \<or> (flag_state t = None \<and> c = None \<and> y = setURL r1 t)" and
    b: "\<And>k. flag_state t = None \<Longrightarrow> c = Some k \<Longrightarrow> truthy t \<Longrightarrow> handleValue E t k r1 = Inr y"
    by (rule processArgument_cases) blast
  have "data y = data r1"
  proof (cases "flag_state t \<noteq> None \<or> c = None \<or> \<not> truthy t")
    case True
    from a [OF True] show ?thesis by (auto simp: setURL_fields)
  next
    case False
    then obtain k where k: "c = Some k" "flag_state t = None" "truthy t" by auto
    show ?thesis using handleValue_data(1) [OF b [OF k(2,1,3)]] assms(2,3) k(1) by simp
  qed
  then show ?thesis using handleFlag_fields(2) [OF hf] by simp
qed

lemma step_method_range:
  assumes "processArgument E t c x = Inr (ns, y)"
    and "c \<noteq> Some Method"
    and "method x \<in> {None, Some ''HEAD'', Some ''POST''}"
  shows "method y \<in> {None, Some ''HEAD'', Some ''POST''}"
proof -
  from assms(1) obtain r1 where
    hf: "handleFlag t x = Inr (flag_state t, r1)" and
    a: "flag_state t \<noteq> None \<or> c = None \<or> \<not> truthy t \<Longrightarrow>
          y = r1 \<or> (flag_state t = None \<and> c = None \<and> y = setURL r1 t)" and
    b: "\<And>k. flag_state t = None \<Longrightarrow> c = Some k \<Longrightarrow> truthy t \<Longrightarrow> handleValue E t k r1 = Inr y"
    by (rule processArgument_cases) blast
  have r1: "method r1 \<in> {None, Some ''HEAD'', Some ''POST''}"
    using handleFlag_fields(1) [OF hf] assms(3) by (simp split: if_splits)
  show ?thesis
  proof (cases "flag_state t \<noteq> None \<or> c = None \<or> \<not> truthy t")
    case True
    from a [OF True] show ?thesis using r1 by (auto simp: setURL_fields)
  next
    case False
    then obtain k where k: "c = Some k" "flag_state t = None" "truthy t" by auto
    note hv = b [OF k(2,1,3)]
    consider "k = Json" | "k = Form" | "k \<noteq> Json" "k \<noteq> Form" by blast
    then show ?thesis
    proof cases
      case 1
      then show ?thesis using handleValue_method(2) [OF hv] r1 by (auto split: if_splits)
    next
      case 2
      then show ?thesis using handleValue_method(3) [OF hv] by simp
    next
      case 3
      then show ?thesis using handleValue_method(1) [OF hv] assms(2) k(1) r1 by simp
    qed
  qed
qed

lemma no_flags_no_method_no_data:
  assumes "buildRequest E ts = Inr b"
    and "set ts \<inter> Str ` ({''-X'', ''--request'', ''-I'', ''--head'', ''-F'', ''--form'', ''--json''}
                          \<union> data_flags) = {}"
  shows "method b = None \<and> data b = None"
proof -
  from assms(1) obtain st where
    run: "build_loop E ts None new_request = Inr (st, b)"
    unfolding buildRequest_def by (auto split: sum.splits prod.splits)
  let ?Q = "\<lambda>c. c \<noteq> Some Method \<and> c \<noteq> Some Form \<and> c \<noteq> Some Data \<and> c \<noteq> Some Json"
  let ?P = "\<lambda>x. method x = None \<and> data x = None"
  show ?thesis
  proof (rule build_loop_invariant [OF run, of ?Q ?P])
    show "?P y" if "t \<in> set ts" "?Q c" "?P x" "processArgument E t c x = Inr (ns, y)"
      for t c x ns y
    proof -
      have "t \<notin> Str ` {''-I'', ''--head''}" using that(1) assms(2) by auto
      then show ?thesis
        using step_method [OF that(4)] step_data [OF that(4)] that(2,3) by simp
    qed
    show "?Q (flag_state t)" if "t \<in> set ts" for t
    proof -
      have "t \<notin> Str ` {''-X'', ''--request''}" "t \<notin> Str ` {''-F'', ''--form''}"
        "t \<notin> Str ` data_flags" "t \<noteq> Str ''--json''"
        using that assms(2) by auto
      then show ?thesis
        by (simp add: flag_state_Method flag_state_Form flag_state_Data flag_state_Json)
    qed
    show "?Q None" by simp
    show "?P new_request" by (simp add: new_request_def)
  qed
qed

lemma no_request_flag_method_range:
  assumes "buildRequest E ts = Inr b"
    and "set ts \<inter> Str ` {''-X'', ''--request''} = {}"
  shows "method b \<in> {None, Some ''HEAD'', Some ''POST''}"
proof -
  from assms(1) obtain st where
    run: "build_loop E ts None new_request = Inr (st, b)"
    unfolding buildRequest_def by (auto split: sum.splits prod.splits)
  let ?Q = "\<lambda>c. c \<noteq> Some Method"
  let ?P = "\<lambda>x. method x \<in> {None, Some ''HEAD'', Some ''POST''}"
  show ?thesis
  proof (rule build_loop_invariant [OF run, of ?Q ?P])
    show "?P y" if "t \<in> set ts" "?Q c" "?P x" "processArgument E t c x = Inr (ns, y)"
      for t c x ns y
      using step_method_range [OF that(4,2,3)] .
    show "?Q (flag_state t)" if "t \<in> set ts" for t
      using that assms(2) by (auto simp: flag_state_Method)
    show "?Q None" by simp
    show "?P new_request" by (simp add: new_request_def)
  qed
qed


lemma lower_consts: "toLowerCase ''GET'' = ''get''" "toLowerCase ''POST'' = ''post''"
  by code_simp+

lemma finish_method:
  assumes "postBuildProcessRequest E b = Inr p" and "normalizeRequest p = Inr r"
  shows "\<not> truthy_opt (data b) \<Longrightarrow> no_method (method b) \<Longrightarrow> method r = Some ''get''"
    and "truthy_opt (data b) \<Longrightarrow> \<not> isQuery b \<Longrightarrow> no_method (method b) \<or> method b = Some ''HEAD''
           \<Longrightarrow> method r = Some ''post''"
    and "method b = Some m \<Longrightarrow> m \<noteq> [] \<Longrightarrow> m \<noteq> ''HEAD'' \<Longrightarrow> method r = Some (toLowerCase m)"
    and "method b = Some m \<Longrightarrow> m \<noteq> [] \<Longrightarrow> \<not> truthy_opt (data b) \<or> isQuery b
           \<Longrightarrow> method r = Some (toLowerCase m)"
proof -
  from normalize_method [OF assms(2)] obtain k where
    k: "method p = Some k" "method r = Some (toLowerCase k)" by blast
  show "method r = Some ''get''" if "\<not> truthy_opt (data b)" "no_method (method b)"
    using assms(1) that k unfolding postBuildProcessRequest_def
    by (auto simp: lower_consts split: if_splits)
  show "method r = Some ''post''"
    if "truthy_opt (data b)" "\<not> isQuery b" "no_method (method b) \<or> method b = Some ''HEAD''"
    using assms(1) that k unfolding postBuildProcessRequest_def
    by (auto simp: lower_consts split: if_splits)
  show "method r = Some (toLowerCase m)" if "method b = Some m" "m \<noteq> []" "m \<noteq> ''HEAD''"
    using assms(1) that k unfolding postBuildProcessRequest_def
    by (auto split: if_splits sum.splits dest: convert_fields)
  show "method r = Some (toLowerCase m)"
    if "method b = Some m" "m \<noteq> []" "\<not> truthy_opt (data b) \<or> isQuery b"
    using assms(1) that k unfolding postBuildProcessRequest_def
    by (auto split: if_splits sum.splits dest: convert_fields)
qed



subsection \<open>Accumulating the data\<close>








subsection \<open>Flags and plain tokens\<close>

lemma not_flag_handleFlag: "\<not> is_flag t \<Longrightarrow> handleFlag t r = Inr (None, r)"
  by (cases t) (auto simp: is_flag_def)

lemma value_flag_handleFlag:
  assumes "flag_state t = Some c"
  shows "\<exists>r1. handleFlag t r = Inr (Some c, r1)"
proof (cases t)
  case (Str a)
  with assms obtain k where k: "find_category FLAG_CATEGORIES a = Some k" "value_state k = Some c"
    by (auto split: option.splits)
  from k(2) have "\<exists>r1. handleFlagCategory k r = Inr (Some c, r1)" by (cases k) auto
  then show ?thesis using Str k(1) by simp
qed (use assms in auto)

section \<open>The claims\<close>

text \<open>
  C1 (the code diverges from the claim). The claim: \<^verbatim>\<open>parseCurlCommand\<close> returns a
  request for every input and raises no exception, in particular for \<^verbatim>\<open>-G\<close> with data and
  no URL. On the command \<^verbatim>\<open>curl -G -d a=b\<close> the build pass leaves \<^verbatim>\<open>request.url\<close>
  undefined and \<^verbatim>\<open>convertDataToQueryString\<close> calls \<^verbatim>\<open>url.indexOf\<close> on it: the run ends
  in a \<^verbatim>\<open>TypeError\<close>.
\<close>

theorem get_without_url_throws:
  "parseCurlCommand sample_env ''curl -G -d a=b'' = Inl TypeError"
  by code_simp

text \<open>
  C2 (amended). Whenever \<^verbatim>\<open>parseCurlCommand\<close> returns, the returned record has a method;
  its headers mapping is the one of the build pass when that has at least one entry and
  is absent when it has none; the auth descriptor and the multipart list are those of the
  build pass (absent unless the command set them), and so are the URL and the data unless
  \<^verbatim>\<open>-G\<close> moved the data into the URL.
\<close>

theorem returned_record_fields:
  assumes "parseCurlCommand E curl = Inr r"
  shows "\<exists>b h. buildRequest E (shell_parse E (cleanCurlCommand curl)) = Inr b
           \<and> headers b = Some h
           \<and> headers r = (if h = [] then None else Some h)
           \<and> (\<exists>m. method r = Some m)
           \<and> auth r = auth b \<and> multipartUploads r = multipartUploads b
           \<and> (\<not> (isQuery b \<and> truthy_opt (data b)) \<longrightarrow> url r = url b \<and> data r = data b)"
proof -
  from parse_stages [OF assms] obtain b p where
    b: "buildRequest E (shell_parse E (cleanCurlCommand curl)) = Inr b" and
    p: "postBuildProcessRequest E b = Inr p" and
    r: "normalizeRequest p = Inr r"
    by blast
  from buildRequest_headers [OF b] obtain h where h: "headers b = Some h" by auto
  have "headers r = (if h = [] then None else Some h)"
    using normalize_fields [OF r] postBuild_fields [OF p] h by simp
  moreover have "\<exists>m. method r = Some m"
    using normalize_method [OF r] by auto
  moreover have "auth r = auth b \<and> multipartUploads r = multipartUploads b"
    using normalize_fields [OF r] postBuild_fields [OF p] by simp
  moreover have "\<not> (isQuery b \<and> truthy_opt (data b)) \<longrightarrow> url r = url b \<and> data r = data b"
    using normalize_fields [OF r] postBuild_unchanged [OF p] by simp
  ultimately show ?thesis using b h by blast
qed

theorem returned_record_fields_witness:
  "parseCurlCommand sample_env ''curl -H Accept:x http://example.com/'' =
     Inr (new_request\<lparr>headers := Some [(''Accept:x'', None)], method := Some ''get'',
            url := Some ''http://example.com/'', urlWithoutQuery := Some ''http://example.com/''\<rparr>)
   \<and> (\<exists>b h. buildRequest sample_env
               (shell_parse sample_env (cleanCurlCommand ''curl -H Accept:x http://example.com/''))
             = Inr b
           \<and> headers b = Some h
           \<and> Some [(''Accept:x'', None)] = (if h = [] then None else Some h))"
proof -
  have run: "parseCurlCommand sample_env ''curl -H Accept:x http://example.com/'' =
     Inr (new_request\<lparr>headers := Some [(''Accept:x'', None)], method := Some ''get'',
            url := Some ''http://example.com/'', urlWithoutQuery := Some ''http://example.com/''\<rparr>)"
    by code_simp
  from returned_record_fields [OF run] obtain b h where
    b: "buildRequest sample_env
          (shell_parse sample_env (cleanCurlCommand ''curl -H Accept:x http://example.com/''))
        = Inr b" and
    h: "headers b = Some h" and
    r: "headers (new_request\<lparr>headers := Some [(''Accept:x'', None)], method := Some ''get'',
            url := Some ''http://example.com/'', urlWithoutQuery := Some ''http://example.com/''\<rparr>)
        = (if h = [] then None else Some h)"
    by blast
  from r have "Some [(''Accept:x'', None)] = (if h = [] then None else Some h)" by simp
  with run b h show ?thesis by blast
qed

text \<open>
  C2 as stated fails: the request returned for \<^verbatim>\<open>curl http://example.com\<close> has no headers
  mapping, because \<^verbatim>\<open>normalizeRequest\<close> deletes an empty one.
\<close>

theorem bare_command_has_no_headers:
  "map_sum id headers (parseCurlCommand sample_env ''curl http://example.com'') = Inr None"
  by code_simp

text \<open>
  C6 (the code diverges from the claim). The claim: for \<^verbatim>\<open>-u user:password\<close> the auth
  descriptor is basic with that user and that password, also when the password contains
  a colon. \<^verbatim>\<open>setAuth\<close> destructures \<^verbatim>\<open>value.split(':')\<close> and keeps the second segment only:
  for \<^verbatim>\<open>-u user:pa:ss\<close> the password is \<^verbatim>\<open>pa\<close>.
\<close>

theorem password_cut_at_colon:
  "map_sum id auth (parseCurlCommand sample_env ''curl -u user:pa:ss http://example.com/'')
   = Inr (Some \<lparr>mode = ''basic'', basic = \<lparr>username = ''user'', password = ''pa''\<rparr>\<rparr>)"
  by code_simp

text \<open>
  C9. Whenever \<^verbatim>\<open>parseCurlCommand\<close> returns, the request has a method and the method has
  no upper-case letter: it is a fixed point of \<^verbatim>\<open>toLowerCase\<close>.
\<close>

theorem method_lowercase:
  assumes "parseCurlCommand E curl = Inr r"
  shows "\<exists>m. method r = Some m \<and> toLowerCase m = m \<and> (\<forall>c \<in> set m. \<not> is_upper c)"
proof -
  from parse_stages [OF assms] obtain p where "normalizeRequest p = Inr r" by blast
  from normalize_method [OF this] obtain m0 where "method r = Some (toLowerCase m0)" by blast
  then show ?thesis using toLower_idem toLower_no_upper by blast
qed

theorem method_lowercase_witness:
  "parseCurlCommand sample_env ''curl -X PuT http://example.com/'' =
     Inr (new_request\<lparr>method := Some ''put'', headers := None,
            url := Some ''http://example.com/'', urlWithoutQuery := Some ''http://example.com/''\<rparr>)
   \<and> toLowerCase ''put'' = ''put'' \<and> \<not> is_upper CHR ''p''"
proof -
  have run: "parseCurlCommand sample_env ''curl -X PuT http://example.com/'' =
     Inr (new_request\<lparr>method := Some ''put'', headers := None,
            url := Some ''http://example.com/'', urlWithoutQuery := Some ''http://example.com/''\<rparr>)"
    by code_simp
  from method_lowercase [OF run] show ?thesis
    using run by auto
qed








text \<open>
  C8 (amended). For a returned request: when the command has none of the flags \<^verbatim>\<open>-X\<close>,
  \<^verbatim>\<open>--request\<close>, \<^verbatim>\<open>-I\<close>, \<^verbatim>\<open>--head\<close>, \<^verbatim>\<open>-F\<close>, \<^verbatim>\<open>--form\<close>, \<^verbatim>\<open>--json\<close> and none of the data
  flags, the method is \<^verbatim>\<open>get\<close>; when the build pass ends with (non-empty) data and the
  command has none of \<^verbatim>\<open>-G\<close>, \<^verbatim>\<open>--get\<close>, \<^verbatim>\<open>-X\<close>, \<^verbatim>\<open>--request\<close>, the method is \<^verbatim>\<open>post\<close>,
  also when \<^verbatim>\<open>-I\<close> had set it to HEAD; a method other than HEAD that the build pass ends
  with is returned in lower case, with or without data.
\<close>

theorem default_method:
  assumes "parseCurlCommand E curl = Inr r"
    and "shell_parse E (cleanCurlCommand curl) = toks"
    and "buildRequest E toks = Inr b"
  shows "(set toks \<inter> Str ` ({''-X'', ''--request'', ''-I'', ''--head'', ''-F'', ''--form'', ''--json''}
                            \<union> data_flags) = {}
            \<longrightarrow> method r = Some ''get'')
       \<and> (truthy_opt (data b) \<and> Str ''-G'' \<notin> set toks \<and> Str ''--get'' \<notin> set toks
            \<and> set toks \<inter> Str ` {''-X'', ''--request''} = {}
            \<longrightarrow> method r = Some ''post'')
       \<and> (\<forall>m. method b = Some m \<and> m \<noteq> [] \<and> m \<noteq> ''HEAD'' \<longrightarrow> method r = Some (toLowerCase m))"
proof -
  from parse_stages [OF assms(1)] assms(2,3) obtain p where
    p: "postBuildProcessRequest E b = Inr p" and r: "normalizeRequest p = Inr r"
    by auto
  have q: "isQuery b = (Str ''-G'' \<in> set toks \<or> Str ''--get'' \<in> set toks)"
    by (rule buildRequest_isQuery [OF assms(3)])
  have "method r = Some ''get''"
    if "set toks \<inter> Str ` ({''-X'', ''--request'', ''-I'', ''--head'', ''-F'', ''--form'', ''--json''}
                          \<union> data_flags) = {}"
    using no_flags_no_method_no_data [OF assms(3) that] finish_method(1) [OF p r] by simp
  moreover have "method r = Some ''post''"
    if "truthy_opt (data b)" "Str ''-G'' \<notin> set toks" "Str ''--get'' \<notin> set toks"
       "set toks \<inter> Str ` {''-X'', ''--request''} = {}"
  proof -
    have "method b \<in> {None, Some ''HEAD'', Some ''POST''}"
      by (rule no_request_flag_method_range [OF assms(3) that(4)])
    then consider "no_method (method b) \<or> method b = Some ''HEAD''" | "method b = Some ''POST''"
      by auto
    then show ?thesis
    proof cases
      case 1
      then show ?thesis using finish_method(2) [OF p r] that q by simp
    next
      case 2
      then show ?thesis using finish_method(3) [OF p r, of "''POST''"] by (simp add: lower_consts)
    qed
  qed
  moreover have "method r = Some (toLowerCase m)"
    if "method b = Some m" "m \<noteq> []" "m \<noteq> ''HEAD''" for m
    using finish_method(3) [OF p r that] .
  ultimately show ?thesis by blast
qed

theorem default_method_witness:
  "parseCurlCommand sample_env ''curl http://example.com/'' =
     Inr (new_request\<lparr>headers := None, method := Some ''get'',
            url := Some ''http://example.com/'', urlWithoutQuery := Some ''http://example.com/''\<rparr>)
   \<and> parseCurlCommand sample_env ''curl -I -d a=b http://example.com/'' =
     Inr (new_request\<lparr>headers := None, method := Some ''post'',
            url := Some ''http://example.com/'', urlWithoutQuery := Some ''http://example.com/'',
            data := Some (Str ''a=b'')\<rparr>)
   \<and> parseCurlCommand sample_env ''curl -X put -d a=b http://example.com/'' =
     Inr (new_request\<lparr>headers := None, method := Some ''put'',
            url := Some ''http://example.com/'', urlWithoutQuery := Some ''http://example.com/'',
            data := Some (Str ''a=b'')\<rparr>)"
proof -
  let ?t1 = "[Str ''curl'', Str ''http://example.com/'']"
  let ?b1 = "new_request\<lparr>url := Some ''http://example.com/'',
               urlWithoutQuery := Some ''http://example.com/''\<rparr>"
  let ?r1 = "new_request\<lparr>headers := None, method := Some ''get'',
            url := Some ''http://example.com/'', urlWithoutQuery := Some ''http://example.com/''\<rparr>"
  have p1: "parseCurlCommand sample_env ''curl http://example.com/'' = Inr ?r1" by code_simp
  have s1: "shell_parse sample_env (cleanCurlCommand ''curl http://example.com/'') = ?t1"
    by code_simp
  have b1: "buildRequest sample_env ?t1 = Inr ?b1" by code_simp
  have n1: "set ?t1 \<inter> Str ` ({''-X'', ''--request'', ''-I'', ''--head'', ''-F'', ''--form'',
              ''--json''} \<union> data_flags) = {}"
    by (auto simp: data_flags_def)
  have g1: "method ?r1 = Some ''get''"
    using default_method [OF p1 s1 b1] n1 by blast
  let ?t2 = "[Str ''curl'', Str ''-I'', Str ''-d'', Str ''a=b'', Str ''http://example.com/'']"
  let ?b2 = "new_request\<lparr>method := Some ''HEAD'', url := Some ''http://example.com/'',
               urlWithoutQuery := Some ''http://example.com/'', data := Some (Str ''a=b'')\<rparr>"
  let ?r2 = "new_request\<lparr>headers := None, method := Some ''post'',
            url := Some ''http://example.com/'', urlWithoutQuery := Some ''http://example.com/'',
            data := Some (Str ''a=b'')\<rparr>"
  have p2: "parseCurlCommand sample_env ''curl -I -d a=b http://example.com/'' = Inr ?r2"
    by code_simp
  have s2: "shell_parse sample_env (cleanCurlCommand ''curl -I -d a=b http://example.com/'') = ?t2"
    by code_simp
  have b2: "buildRequest sample_env ?t2 = Inr ?b2" by code_simp
  have n2: "truthy_opt (data ?b2) \<and> Str ''-G'' \<notin> set ?t2 \<and> Str ''--get'' \<notin> set ?t2
            \<and> set ?t2 \<inter> Str ` {''-X'', ''--request''} = {}"
    by auto
  have g2: "method ?r2 = Some ''post''"
    using default_method [OF p2 s2 b2] n2 by blast
  let ?t3 = "[Str ''curl'', Str ''-X'', Str ''put'', Str ''-d'', Str ''a=b'', Str ''http://example.com/'']"
  let ?b3 = "new_request\<lparr>method := Some ''PUT'', url := Some ''http://example.com/'',
               urlWithoutQuery := Some ''http://example.com/'', data := Some (Str ''a=b'')\<rparr>"
  let ?r3 = "new_request\<lparr>headers := None, method := Some ''put'',
            url := Some ''http://example.com/'', urlWithoutQuery := Some ''http://example.com/'',
            data := Some (Str ''a=b'')\<rparr>"
  have p3: "parseCurlCommand sample_env ''curl -X put -d a=b http://example.com/'' = Inr ?r3"
    by code_simp
  have s3: "shell_parse sample_env (cleanCurlCommand ''curl -X put -d a=b http://example.com/'') = ?t3"
    by code_simp
  have b3: "buildRequest sample_env ?t3 = Inr ?b3" by code_simp
  have n3: "method ?b3 = Some ''PUT'' \<and> ''PUT'' \<noteq> [] \<and> ''PUT'' \<noteq> ''HEAD''" by simp
  have g3: "method ?r3 = Some (toLowerCase ''PUT'')"
    using default_method [OF p3 s3 b3] n3 by blast
  show ?thesis using p1 p2 p3 g1 g2 g3 by simp
qed

text \<open>
  C8 as stated fails: with \<^verbatim>\<open>-G\<close> the data moves into the URL and the method stays
  unset, so \<^verbatim>\<open>curl -G -d a=b http://example.com/get\<close>, a command with data and no
  \<^verbatim>\<open>-X\<close>, returns the method \<^verbatim>\<open>get\<close>.
\<close>

theorem get_flag_keeps_default_get:
  "map_sum id method (parseCurlCommand sample_env ''curl -G -d a=b http://example.com/get'')
   = Inr (Some ''get'')"
  by code_simp




text \<open>
  C4 (amended). \<^verbatim>\<open>buildRequest\<close> is one pass over the tokens in order: the loop over
  \<open>xs @ ys\<close> is the loop over \<open>xs\<close> followed by the loop over \<open>ys\<close> from the state and
  request reached. After each token the state is the one that token sets as a flag
  expecting a value, and null otherwise, whatever the state was before. A flag expecting
  a value sets the state; when the next token is not a flag and is not the empty string,
  it is passed to the handler of that state and the loop goes on in the null state; when
  the next token is the empty string, no handler is called and the loop goes on in the
  null state all the same. In the null state a token that is not a flag is never passed
  to a value handler: it is only tried as a URL.
\<close>

theorem state_machine:
  "build_loop E (xs @ ys) cur r =
     (case build_loop E xs cur r of Inl e \<Rightarrow> Inl e | Inr (st, r') \<Rightarrow> build_loop E ys st r')
   \<and> (processArgument E t cur r = Inr (ns, r1) \<longrightarrow> next_state cur ns = flag_state t)
   \<and> (flag_state t = Some c \<longrightarrow>
        (\<exists>r2. handleFlag t r = Inr (Some c, r2) \<and> processArgument E t cur r = Inr (Some c, r2)))
   \<and> (flag_state t = Some c \<and> handleFlag t r = Inr (Some c, r1) \<and> \<not> is_flag v \<and> truthy v \<longrightarrow>
        build_loop E (t # v # rest) cur r =
          (case handleValue E v c r1 of Inl e \<Rightarrow> Inl e | Inr r2 \<Rightarrow> build_loop E rest None r2))
   \<and> (flag_state t = Some c \<and> handleFlag t r = Inr (Some c, r1) \<longrightarrow>
        build_loop E (t # Str [] # rest) cur r = build_loop E rest None r1)
   \<and> (\<not> is_flag v \<longrightarrow>
        processArgument E v None r = Inr (None, if isURLOrFragment E v then setURL r v else r))"
proof (intro conjI impI)
  show "build_loop E (xs @ ys) cur r =
     (case build_loop E xs cur r of Inl e \<Rightarrow> Inl e | Inr (st, r') \<Rightarrow> build_loop E ys st r')"
    by (rule build_loop_append)
  show "next_state cur ns = flag_state t" if "processArgument E t cur r = Inr (ns, r1)"
    using that by (rule step_state)
  show "\<exists>r2. handleFlag t r = Inr (Some c, r2) \<and> processArgument E t cur r = Inr (Some c, r2)"
    if "flag_state t = Some c"
  proof -
    from value_flag_handleFlag [OF that] obtain r2 where "handleFlag t r = Inr (Some c, r2)"
      by blast
    then show ?thesis by (auto simp: processArgument_def)
  qed
  show "build_loop E (t # v # rest) cur r =
          (case handleValue E v c r1 of Inl e \<Rightarrow> Inl e | Inr r2 \<Rightarrow> build_loop E rest None r2)"
    if "flag_state t = Some c \<and> handleFlag t r = Inr (Some c, r1) \<and> \<not> is_flag v \<and> truthy v"
  proof -
    have 1: "processArgument E t cur r = Inr (Some c, r1)"
      using that by (simp add: processArgument_def)
    have 2: "processArgument E v (Some c) r1 =
               (case handleValue E v c r1 of Inl e \<Rightarrow> Inl e | Inr r2 \<Rightarrow> Inr (None, r2))"
      using that not_flag_handleFlag [of v r1] by (simp add: processArgument_def)
    show ?thesis using 1 2 by (simp add: next_state_def split: sum.splits)
  qed
  show "build_loop E (t # Str [] # rest) cur r = build_loop E rest None r1"
    if "flag_state t = Some c \<and> handleFlag t r = Inr (Some c, r1)"
  proof -
    have 1: "processArgument E t cur r = Inr (Some c, r1)"
      using that by (simp add: processArgument_def)
    have "\<not> is_flag (Str [])" by (simp add: is_flag_def find_category_closed)
    then have 2: "processArgument E (Str []) (Some c) r1 = Inr (None, r1)"
      using not_flag_handleFlag [of "Str []" r1] by (simp add: processArgument_def)
    show ?thesis using 1 2 by (simp add: next_state_def)
  qed
  show "processArgument E v None r = Inr (None, if isURLOrFragment E v then setURL r v else r)"
    if "\<not> is_flag v"
    using not_flag_handleFlag [OF that, of r] by (simp add: processArgument_def)
qed

theorem state_machine_witness:
  "build_loop sample_env [Str ''-u'', Str ''bob:pw'', Str ''http://example.com/''] None new_request
   = Inr (None, new_request\<lparr>url := Some ''http://example.com/'',
                  urlWithoutQuery := Some ''http://example.com/'',
                  auth := Some \<lparr>mode = ''basic'',
                               basic = \<lparr>username = ''bob'', password = ''pw''\<rparr>\<rparr>\<rparr>)
   \<and> build_loop sample_env [Str ''http://example.com/''] None
        (new_request\<lparr>auth := Some \<lparr>mode = ''basic'',
                               basic = \<lparr>username = ''bob'', password = ''pw''\<rparr>\<rparr>\<rparr>)
     = Inr (None, new_request\<lparr>url := Some ''http://example.com/'',
                  urlWithoutQuery := Some ''http://example.com/'',
                  auth := Some \<lparr>mode = ''basic'',
                               basic = \<lparr>username = ''bob'', password = ''pw''\<rparr>\<rparr>\<rparr>)"
proof -
  let ?t = "Str ''-u''" and ?v = "Str ''bob:pw''" and ?rest = "[Str ''http://example.com/'']"
  let ?r2 = "new_request\<lparr>auth := Some \<lparr>mode = ''basic'',
                               basic = \<lparr>username = ''bob'', password = ''pw''\<rparr>\<rparr>\<rparr>"
  have fs: "flag_state ?t = Some User" by code_simp
  have hf: "handleFlag ?t new_request = Inr (Some User, new_request)" by code_simp
  have nv: "\<not> is_flag ?v" by code_simp
  have tv: "truthy ?v" by simp
  have hv: "handleValue sample_env ?v User new_request = Inr ?r2" by code_simp
  from state_machine [of sample_env "[]" "[]" None new_request ?t None new_request User ?v ?rest]
  have "build_loop sample_env (?t # ?v # ?rest) None new_request =
          (case handleValue sample_env ?v User new_request of
             Inl e \<Rightarrow> Inl e | Inr r2 \<Rightarrow> build_loop sample_env ?rest None r2)"
    using fs hf nv tv by blast
  then have eq: "build_loop sample_env (?t # ?v # ?rest) None new_request
                 = build_loop sample_env ?rest None ?r2"
    unfolding hv by simp
  have "build_loop sample_env ?rest None ?r2
     = Inr (None, new_request\<lparr>url := Some ''http://example.com/'',
                  urlWithoutQuery := Some ''http://example.com/'',
                  auth := Some \<lparr>mode = ''basic'',
                               basic = \<lparr>username = ''bob'', password = ''pw''\<rparr>\<rparr>\<rparr>)"
    by code_simp
  then show ?thesis using eq by simp
qed

text \<open>
  C4 as stated fails: the guard \<^verbatim>\<open>arg && currentState\<close> of \<^verbatim>\<open>processArgument\<close> skips an
  empty token, so the token after \<^verbatim>\<open>-u\<close> in \<^verbatim>\<open>curl -u ''\<close> is not consumed as the value
  of the flag: no auth descriptor is set, where \<^verbatim>\<open>setAuth\<close> on that value would set one.
\<close>

theorem empty_token_not_consumed:
  "map_sum id auth (buildRequest sample_env [Str ''curl'', Str ''-u'', Str []]) = Inr None
   \<and> map_sum id auth (handleValue sample_env (Str []) User new_request)
     = Inr (Some \<lparr>mode = ''basic'', basic = \<lparr>username = [], password = []\<rparr>\<rparr>)"
  by code_simp

end
